theory Spec2Isabelle
  imports Main "HOL-Library.Word"
begin

section \<open>The EncryptedMessages registry\<close>

text \<open>
  A shallow embedding of the Solidity contract \<^verbatim>\<open>EncryptedMessages\<close>
  (\<^verbatim>\<open>src/unnamed/part_002\<close>). Storage variables become the fields of a record that is
  passed through every call; \<^verbatim>\<open>require\<close> failures and arithmetic panics become error
  values; the call context (\<^verbatim>\<open>msg.sender\<close>, \<^verbatim>\<open>block.timestamp\<close>, \<^verbatim>\<open>address(this)\<close>)
  is an explicit argument.
\<close>

subsection \<open>Value types\<close>

type_synonym address = "160 word"
type_synonym uint256 = "256 word"
type_synonym uint64 = "64 word"
type_synonym uint32 = "32 word"

text \<open>
  \<^verbatim>\<open>euint64\<close>, \<^verbatim>\<open>euint32\<close>, \<^verbatim>\<open>externalEuint64\<close> and \<^verbatim>\<open>externalEuint32\<close> are user-defined
  value types over \<^verbatim>\<open>bytes32\<close>: opaque ciphertext handles. \<^verbatim>\<open>bytes\<close> is a byte string.
\<close>

type_synonym bytes32 = "256 word"
type_synonym bytes = "8 word list"

subsection \<open>Storage\<close>

text \<open>\<^verbatim>\<open>struct Message\<close> (lines 12 to 18).\<close>

record Message =
  sender :: address
  encryptedContent :: bytes32
  encryptedTimestamp :: bytes32
  createdAt :: uint256
  exists :: bool

text \<open>
  The two events the contract declares (lines 30 and 33). Only \<^verbatim>\<open>MessageSubmitted\<close> is
  ever emitted.
\<close>

datatype event =
    MessageSubmitted uint256 address uint256
  | MessageAccessed uint256 address

text \<open>
  The state a call can change. \<open>messages\<close>, \<open>userMessages\<close> and \<open>totalMessages\<close> are the
  three storage variables (lines 21, 24, 27); a Solidity mapping is total, with the zero
  value at every key never written. \<open>allowed\<close> is the sequence of access grants the
  contract has requested from the FHE library (\<^verbatim>\<open>FHE.allow\<close>, \<^verbatim>\<open>FHE.allowThis\<close>), as
  pairs of handle and grantee in call order; \<open>events\<close> is the log of emitted events.
\<close>

record world =
  messages :: "uint256 \<Rightarrow> Message"
  userMessages :: "address \<Rightarrow> uint256 list"
  totalMessages :: uint256
  allowed :: "(bytes32 \<times> address) list"
  events :: "event list"

definition zero_Message :: Message where
  "zero_Message =
     \<lparr>sender = 0, encryptedContent = 0, encryptedTimestamp = 0, createdAt = 0, exists = False\<rparr>"

text \<open>The state right after deployment: all storage is zero, nothing granted or logged.\<close>

definition init_world :: world where
  "init_world =
     \<lparr>messages = (\<lambda>_. zero_Message), userMessages = (\<lambda>_. []), totalMessages = 0,
      allowed = [], events = []\<rparr>"

subsection \<open>Call environment\<close>

text \<open>
  What a call receives from the host ledger: \<^verbatim>\<open>address(this)\<close>, \<^verbatim>\<open>msg.sender\<close> and
  \<^verbatim>\<open>block.timestamp\<close>, and the answers of the FHE library \<^verbatim>\<open>@fhevm/solidity\<close>, which is
  not part of the repository. \<open>fromExternal64 h p\<close> and \<open>fromExternal32 h p\<close> stand for
  \<^verbatim>\<open>FHE.fromExternal(h, p)\<close> at the two handle types: \<open>None\<close> when the library rejects the
  input proof (the call reverts), \<open>Some h'\<close> with the imported handle otherwise.
  \<open>asEuint64\<close> and \<open>asEuint32\<close> stand for \<^verbatim>\<open>FHE.asEuint64\<close> and \<^verbatim>\<open>FHE.asEuint32\<close>, which
  wrap a plaintext and do not fail. \<open>getConfidentialProtocolId\<close> is the number that
  \<^verbatim>\<open>ZamaConfig.getConfidentialProtocolId()\<close> of the same library answers. Every theorem
  below holds for all answers.
\<close>

record env =
  this_address :: address
  msg_sender :: address
  block_timestamp :: uint256
  fromExternal64 :: "bytes32 \<Rightarrow> bytes \<Rightarrow> bytes32 option"
  fromExternal32 :: "bytes32 \<Rightarrow> bytes \<Rightarrow> bytes32 option"
  asEuint64 :: "uint64 \<Rightarrow> bytes32"
  asEuint32 :: "uint32 \<Rightarrow> bytes32"
  getConfidentialProtocolId :: uint256

subsection \<open>Errors\<close>

text \<open>
  \<open>Revert msg\<close> is a failed \<^verbatim>\<open>require(cond, msg)\<close>; \<open>Panic code\<close> is a compiler-inserted
  check (Solidity 0.8 arithmetic is checked: code \<open>0x11\<close> is overflow); \<open>ProofInvalid\<close>
  is the revert of \<^verbatim>\<open>FHE.fromExternal\<close> on a rejected input proof.
\<close>

datatype error = Revert string | Panic nat | ProofInvalid

definition MessageNotFound :: error where
  "MessageNotFound = Revert ''Message does not exist''"

definition NotAuthorized :: error where
  "NotAuthorized = Revert ''Not authorized''"

subsection \<open>State-changing functions\<close>

text \<open>
  A state-changing function returns its result together with the state reached when it
  returned or failed, so that the order of checks and writes in the source stays visible.
  \<^verbatim>\<open>submitMessage\<close> (lines 39 to 66): both imports come first; \<^verbatim>\<open>_totalMessages++\<close>
  panics at the largest \<^verbatim>\<open>uint256\<close>; then the struct is stored, the id pushed to the
  caller's array, the four grants requested and the event emitted.
\<close>

definition submitMessage ::
  "env \<Rightarrow> bytes32 \<Rightarrow> bytes32 \<Rightarrow> bytes \<Rightarrow> world \<Rightarrow> (error + unit) \<times> world" where
  "submitMessage e encContent encTimestamp inputProof s =
     (case fromExternal64 e encContent inputProof of
        None \<Rightarrow> (Inl ProofInvalid, s)
      | Some content \<Rightarrow>
          (case fromExternal32 e encTimestamp inputProof of
             None \<Rightarrow> (Inl ProofInvalid, s)
           | Some timestamp \<Rightarrow>
               if totalMessages s = - 1 then (Inl (Panic 17), s)
               else
                 let messageId = totalMessages s;
                     s1 = s\<lparr>totalMessages := totalMessages s + 1\<rparr>;
                     s2 = s1\<lparr>messages := (messages s1)(messageId :=
                            \<lparr>sender = msg_sender e, encryptedContent = content,
                             encryptedTimestamp = timestamp,
                             createdAt = block_timestamp e, exists = True\<rparr>)\<rparr>;
                     s3 = s2\<lparr>userMessages := (userMessages s2)(msg_sender e :=
                            userMessages s2 (msg_sender e) @ [messageId])\<rparr>;
                     s4 = s3\<lparr>allowed := allowed s3 @
                            [(content, this_address e), (content, msg_sender e),
                             (timestamp, this_address e), (timestamp, msg_sender e)]\<rparr>;
                     s5 = s4\<lparr>events := events s4 @
                            [MessageSubmitted messageId (msg_sender e) (block_timestamp e)]\<rparr>
                 in (Inr (), s5)))"

text \<open>\<^verbatim>\<open>submitMessageMock\<close> (lines 132 to 155): the same body after wrapping plaintexts.\<close>

definition submitMessageMock ::
  "env \<Rightarrow> uint64 \<Rightarrow> uint32 \<Rightarrow> world \<Rightarrow> (error + unit) \<times> world" where
  "submitMessageMock e content timestamp s =
     (let encContent = asEuint64 e content;
          encTimestamp = asEuint32 e timestamp
      in if totalMessages s = - 1 then (Inl (Panic 17), s)
         else
           let messageId = totalMessages s;
               s1 = s\<lparr>totalMessages := totalMessages s + 1\<rparr>;
               s2 = s1\<lparr>messages := (messages s1)(messageId :=
                      \<lparr>sender = msg_sender e, encryptedContent = encContent,
                       encryptedTimestamp = encTimestamp,
                       createdAt = block_timestamp e, exists = True\<rparr>)\<rparr>;
               s3 = s2\<lparr>userMessages := (userMessages s2)(msg_sender e :=
                      userMessages s2 (msg_sender e) @ [messageId])\<rparr>;
               s4 = s3\<lparr>allowed := allowed s3 @
                      [(encContent, this_address e), (encContent, msg_sender e),
                       (encTimestamp, this_address e), (encTimestamp, msg_sender e)]\<rparr>;
               s5 = s4\<lparr>events := events s4 @
                      [MessageSubmitted messageId (msg_sender e) (block_timestamp e)]\<rparr>
           in (Inr (), s5))"

subsection \<open>View functions\<close>

text \<open>A \<^verbatim>\<open>view\<close> function cannot write: it takes the state and returns only its result.\<close>

definition getUserMessages :: "env \<Rightarrow> world \<Rightarrow> uint256 list" where
  "getUserMessages e s = userMessages s (msg_sender e)"

definition getUserMessageCount :: "address \<Rightarrow> world \<Rightarrow> uint256" where
  "getUserMessageCount user s = of_nat (length (userMessages s user))"

definition getMessageMetadata :: "uint256 \<Rightarrow> world \<Rightarrow> address \<times> uint256 \<times> bool" where
  "getMessageMetadata messageId s =
     (let message = messages s messageId
      in (sender message, createdAt message, exists message))"

definition getEncryptedContent :: "env \<Rightarrow> uint256 \<Rightarrow> world \<Rightarrow> error + bytes32" where
  "getEncryptedContent e messageId s =
     (if \<not> exists (messages s messageId) then Inl (Revert ''Message does not exist'')
      else if sender (messages s messageId) \<noteq> msg_sender e then Inl (Revert ''Not authorized'')
      else Inr (encryptedContent (messages s messageId)))"

definition getEncryptedTimestamp :: "env \<Rightarrow> uint256 \<Rightarrow> world \<Rightarrow> error + bytes32" where
  "getEncryptedTimestamp e messageId s =
     (if \<not> exists (messages s messageId) then Inl (Revert ''Message does not exist'')
      else if sender (messages s messageId) \<noteq> msg_sender e then Inl (Revert ''Not authorized'')
      else Inr (encryptedTimestamp (messages s messageId)))"

definition getTotalMessages :: "world \<Rightarrow> uint256" where
  "getTotalMessages s = totalMessages s"

definition isMessageOwner :: "env \<Rightarrow> uint256 \<Rightarrow> world \<Rightarrow> bool" where
  "isMessageOwner e messageId s =
     (exists (messages s messageId) \<and> sender (messages s messageId) = msg_sender e)"

text \<open>
  The contract is declared \<^verbatim>\<open>contract EncryptedMessages is ZamaEthereumConfig\<close> (line 10)
  and so inherits the public view \<^verbatim>\<open>confidentialProtocolId()\<close> of that base contract,
  which belongs to the library \<^verbatim>\<open>@fhevm/solidity\<close>: it takes no argument, reads nothing
  of the registry and returns the library's protocol id.
\<close>

definition confidentialProtocolId :: "env \<Rightarrow> uint256" where
  "confidentialProtocolId e = getConfidentialProtocolId e"

subsection \<open>The external interface\<close>

text \<open>
  One constructor for each function of the contract that can be called from outside: the
  nine \<^verbatim>\<open>external\<close> functions it declares, in source order, and the inherited
  \<^verbatim>\<open>confidentialProtocolId\<close>; and the values they return. The contract has no fallback
  and no receive function.
\<close>

datatype call =
    SubmitMessage bytes32 bytes32 bytes
  | GetUserMessages
  | GetUserMessageCount address
  | GetMessageMetadata uint256
  | GetEncryptedContent uint256
  | GetEncryptedTimestamp uint256
  | GetTotalMessages
  | IsMessageOwner uint256
  | SubmitMessageMock uint64 uint32
  | ConfidentialProtocolId

datatype retval =
    RUnit
  | RIds "uint256 list"
  | RUint uint256
  | RMetadata address uint256 bool
  | RHandle bytes32
  | RBool bool

text \<open>
  The host ledger applies a call atomically: when a state-changing function fails, every
  write it made is discarded and the state before the call stays.
\<close>

definition commit :: "world \<Rightarrow> (error + unit) \<times> world \<Rightarrow> (error + retval) \<times> world" where
  "commit s r = (case fst r of Inl err \<Rightarrow> (Inl err, s) | Inr _ \<Rightarrow> (Inr RUnit, snd r))"

fun transact :: "env \<Rightarrow> call \<Rightarrow> world \<Rightarrow> (error + retval) \<times> world" where
  "transact e (SubmitMessage c t p) s = commit s (submitMessage e c t p s)"
| "transact e GetUserMessages s = (Inr (RIds (getUserMessages e s)), s)"
| "transact e (GetUserMessageCount user) s = (Inr (RUint (getUserMessageCount user s)), s)"
| "transact e (GetMessageMetadata i) s =
     (case getMessageMetadata i s of (a, t, b) \<Rightarrow> (Inr (RMetadata a t b), s))"
| "transact e (GetEncryptedContent i) s = (map_sum id RHandle (getEncryptedContent e i s), s)"
| "transact e (GetEncryptedTimestamp i) s = (map_sum id RHandle (getEncryptedTimestamp e i s), s)"
| "transact e GetTotalMessages s = (Inr (RUint (getTotalMessages s)), s)"
| "transact e (IsMessageOwner i) s = (Inr (RBool (isMessageOwner e i s)), s)"
| "transact e (SubmitMessageMock c t) s = commit s (submitMessageMock e c t s)"
| "transact e ConfidentialProtocolId s = (Inr (RUint (confidentialProtocolId e)), s)"

text \<open>Running a sequence of calls, each in its own environment, from a state.\<close>

fun run :: "(env \<times> call) list \<Rightarrow> world \<Rightarrow> world" where
  "run [] s = s"
| "run (ec # rest) s = run rest (snd (transact (fst ec) (snd ec) s))"

text \<open>
  The ids handed out so far: \<open>0, 1, \<dots>, totalMessages - 1\<close> in increasing order.
\<close>

definition assigned_ids :: "world \<Rightarrow> uint256 list" where
  "assigned_ids s = map of_nat [0..<unat (totalMessages s)]"

text \<open>
  Whether a call is a submission that succeeds in a state, and how many submissions
  succeed along a run (all of them, or those of one caller).
\<close>

definition is_submission :: "call \<Rightarrow> bool" where
  "is_submission c =
     (case c of SubmitMessage _ _ _ \<Rightarrow> True | SubmitMessageMock _ _ \<Rightarrow> True | _ \<Rightarrow> False)"

definition submits :: "env \<Rightarrow> call \<Rightarrow> world \<Rightarrow> bool" where
  "submits e c s =
     (is_submission c \<and> (case fst (transact e c s) of Inl _ \<Rightarrow> False | Inr _ \<Rightarrow> True))"

fun submissions :: "(env \<times> call) list \<Rightarrow> world \<Rightarrow> nat" where
  "submissions [] s = 0"
| "submissions (ec # rest) s =
     (if submits (fst ec) (snd ec) s then 1 else 0)
     + submissions rest (snd (transact (fst ec) (snd ec) s))"

fun submissions_by :: "address \<Rightarrow> (env \<times> call) list \<Rightarrow> world \<Rightarrow> nat" where
  "submissions_by u [] s = 0"
| "submissions_by u (ec # rest) s =
     (if submits (fst ec) (snd ec) s \<and> msg_sender (fst ec) = u then 1 else 0)
     + submissions_by u rest (snd (transact (fst ec) (snd ec) s))"

fun event_id :: "event \<Rightarrow> uint256" where
  "event_id (MessageSubmitted i _ _) = i"
| "event_id (MessageAccessed i _) = i"

text \<open>
  The state a successful submission leaves, written once for the lemmas: lines 47 to 65
  of \<^verbatim>\<open>submitMessage\<close> (and 136 to 154 of \<^verbatim>\<open>submitMessageMock\<close>) with the two
  internal handles given.
\<close>

definition stored :: "env \<Rightarrow> bytes32 \<Rightarrow> bytes32 \<Rightarrow> world \<Rightarrow> world" where
  "stored e content timestamp s =
     \<lparr>messages = (messages s)(totalMessages s :=
        \<lparr>sender = msg_sender e, encryptedContent = content, encryptedTimestamp = timestamp,
         createdAt = block_timestamp e, exists = True\<rparr>),
      userMessages = (userMessages s)(msg_sender e :=
        userMessages s (msg_sender e) @ [totalMessages s]),
      totalMessages = totalMessages s + 1,
      allowed = allowed s @
        [(content, this_address e), (content, msg_sender e),
         (timestamp, this_address e), (timestamp, msg_sender e)],
      events = events s @
        [MessageSubmitted (totalMessages s) (msg_sender e) (block_timestamp e)]\<rparr>"

text \<open>
  The invariant of the registry: a message exists exactly at the ids below the counter;
  each user's array lists, in increasing order, the ids whose sender is that user; one
  event was logged for each id, in order.
\<close>

definition registry_inv :: "world \<Rightarrow> bool" where
  "registry_inv s =
     ((\<forall>i. exists (messages s i) = (i < totalMessages s)) \<and>
      (\<forall>u. userMessages s u = filter (\<lambda>i. sender (messages s i) = u) (assigned_ids s)) \<and>
      map event_id (events s) = assigned_ids s)"


text \<open>
  An environment for the examples: the contract lives at address \<open>4096\<close>; the library
  accepts every non-empty proof and returns the handle it was given, wraps a
  plaintext by zero extension, and answers the protocol id \<open>10001\<close>.
\<close>

definition example_env :: "address \<Rightarrow> uint256 \<Rightarrow> env" where
  "example_env caller now =
     \<lparr>this_address = 4096, msg_sender = caller, block_timestamp = now,
      fromExternal64 = (\<lambda>h p. if p = [] then None else Some h),
      fromExternal32 = (\<lambda>h p. if p = [] then None else Some h),
      asEuint64 = ucast, asEuint32 = ucast, getConfidentialProtocolId = 10001\<rparr>"

text \<open>
  Some calls for the examples. Caller \<open>1\<close> submits and gets id \<open>0\<close>; caller \<open>2\<close>
  submits through the mock entry point and gets id \<open>1\<close>, submits again and gets id
  \<open>2\<close>, and then submits with an empty proof, which the library rejects.
\<close>

definition example_calls :: "(env \<times> call) list" where
  "example_calls =
     [(example_env 1 1000, SubmitMessage 5 6 [1]),
      (example_env 2 1001, SubmitMessageMock 7 8),
      (example_env 2 1002, SubmitMessage 9 10 [1]),
      (example_env 2 1003, SubmitMessage 11 12 [])]"

section \<open>Facts about machine words\<close>

lemma unat_of_nat_below:
  assumes "k < unat (n::'a::len word)"
  shows "unat (of_nat k :: 'a word) = k"
proof -
  have "unat n < 2 ^ LENGTH('a)" by (rule unsigned_less)
  with assms have "k < 2 ^ LENGTH('a)" by (rule less_trans)
  then show ?thesis by (simp add: unat_of_nat)
qed

lemma word_ids_set: "set (map of_nat [0..<unat n]) = {i::'a::len word. i < n}"
proof (intro set_eqI iffI)
  fix i :: "'a word"
  assume "i \<in> set (map of_nat [0..<unat n])"
  then obtain k where k: "k < unat n" "i = of_nat k" by auto
  from k(1) have "unat (of_nat k :: 'a word) = k" by (rule unat_of_nat_below)
  with k show "i \<in> {i. i < n}" by (simp add: word_less_nat_alt)
next
  fix i :: "'a word"
  assume "i \<in> {i. i < n}"
  then have "unat i < unat n" by (simp add: word_less_nat_alt)
  then have "unat i \<in> set [0..<unat n]" by simp
  then have "of_nat (unat i) \<in> (of_nat :: nat \<Rightarrow> 'a word) ` set [0..<unat n]" by (rule imageI)
  then show "i \<in> set (map of_nat [0..<unat n])" by simp
qed

lemma word_ids_distinct: "distinct (map of_nat [0..<unat (n::'a::len word)] :: 'a word list)"
proof -
  have "inj_on (of_nat :: nat \<Rightarrow> 'a word) (set [0..<unat n])"
  proof (rule inj_onI)
    fix x y assume "x \<in> set [0..<unat n]" "y \<in> set [0..<unat n]"
      and eq: "(of_nat x :: 'a word) = of_nat y"
    then have x: "x < unat n" and y: "y < unat n" by simp_all
    have "x = unat (of_nat x :: 'a word)" using x by (rule unat_of_nat_below [symmetric])
    also have "\<dots> = unat (of_nat y :: 'a word)" by (rule arg_cong [OF eq])
    also have "\<dots> = y" using y by (rule unat_of_nat_below)
    finally show "x = y" .
  qed
  then show ?thesis by (simp add: distinct_map)
qed

lemma word_below_card: "card {i::'a::len word. i < n} = unat n"
proof -
  have "card (set (map of_nat [0..<unat n] :: 'a word list)) = length (map of_nat [0..<unat n] :: 'a word list)"
    by (rule distinct_card) (rule word_ids_distinct)
  then have "card {i::'a word. i < n} = length (map of_nat [0..<unat n] :: 'a word list)"
    by (simp only: word_ids_set)
  then show ?thesis by simp
qed

lemma unat_succ: "(n::'a::len word) \<noteq> - 1 \<Longrightarrow> unat (n + 1) = Suc (unat n)"
proof -
  assume "n \<noteq> - 1"
  then have "1 + n \<noteq> 0"
    by (metis add_eq_0_iff)
  then show ?thesis using unatSuc [of n] by (simp add: add.commute)
qed

section \<open>Single calls, the invariant and counts\<close>

lemma submitMessage_result:
  "submitMessage e c t p s =
     (case fromExternal64 e c p of
        None \<Rightarrow> (Inl ProofInvalid, s)
      | Some content \<Rightarrow>
          (case fromExternal32 e t p of
             None \<Rightarrow> (Inl ProofInvalid, s)
           | Some timestamp \<Rightarrow>
               if totalMessages s = - 1 then (Inl (Panic 17), s)
               else (Inr (), stored e content timestamp s)))"
  by (simp add: submitMessage_def stored_def Let_def split: option.splits)

lemma submitMessageMock_result:
  "submitMessageMock e x y s =
     (if totalMessages s = - 1 then (Inl (Panic 17), s)
      else (Inr (), stored e (asEuint64 e x) (asEuint32 e y) s))"
  by (simp add: submitMessageMock_def stored_def Let_def)

lemma transact_step:
  "(\<not> submits e c s \<and> snd (transact e c s) = s) \<or>
   (submits e c s \<and> totalMessages s \<noteq> - 1 \<and>
    (\<exists>content timestamp. snd (transact e c s) = stored e content timestamp s))"
  by (cases c)
     (auto simp: submits_def is_submission_def commit_def submitMessage_result
        submitMessageMock_result split: option.splits prod.splits)

lemma word_less_succ:
  assumes "(n::'a::len word) \<noteq> - 1"
  shows "(i < n + 1) = (i < n \<or> i = n)"
proof -
  have "(i < n + 1) = (unat i < Suc (unat n))"
    by (simp add: word_less_nat_alt unat_succ [OF assms])
  also have "\<dots> = (unat i < unat n \<or> unat i = unat n)" by auto
  also have "\<dots> = (i < n \<or> i = n)" by (simp add: word_less_nat_alt word_unat_eq_iff)
  finally show ?thesis .
qed

lemma assigned_ids_set: "set (assigned_ids s) = {i. i < totalMessages s}"
  unfolding assigned_ids_def by (rule word_ids_set)

lemma assigned_ids_stored:
  assumes "totalMessages s \<noteq> - 1"
  shows "assigned_ids (stored e c t s) = assigned_ids s @ [totalMessages s]"
proof -
  have "unat (totalMessages s + 1) = Suc (unat (totalMessages s))"
    using assms by (rule unat_succ)
  then show ?thesis by (simp add: assigned_ids_def stored_def)
qed

lemma messages_stored_below:
  "i < totalMessages s \<Longrightarrow> messages (stored e c t s) i = messages s i"
  by (auto simp: stored_def)

lemma registry_inv_init: "registry_inv init_world"
  by (simp add: registry_inv_def init_world_def zero_Message_def assigned_ids_def)

lemma registry_inv_stored:
  assumes inv: "registry_inv s" and nomax: "totalMessages s \<noteq> - 1"
  shows "registry_inv (stored e c t s)"
proof -
  let ?s' = "stored e c t s"
  let ?n = "totalMessages s"
  have ids: "assigned_ids ?s' = assigned_ids s @ [?n]"
    using nomax by (rule assigned_ids_stored)
  have ex: "exists (messages ?s' i) = (i < totalMessages ?s')" for i
  proof -
    have "exists (messages ?s' i) = (i = ?n \<or> exists (messages s i))"
      by (simp add: stored_def)
    also have "\<dots> = (i < ?n \<or> i = ?n)" using inv by (auto simp: registry_inv_def)
    also have "\<dots> = (i < ?n + 1)" using nomax by (simp add: word_less_succ)
    also have "?n + 1 = totalMessages ?s'" by (simp add: stored_def)
    finally show ?thesis .
  qed
  have old: "filter (\<lambda>i. sender (messages ?s' i) = u) (assigned_ids s)
             = filter (\<lambda>i. sender (messages s i) = u) (assigned_ids s)" for u
    by (rule filter_cong) (auto simp: assigned_ids_set messages_stored_below)
  have new: "sender (messages ?s' ?n) = msg_sender e" by (simp add: stored_def)
  have um: "userMessages ?s' u = filter (\<lambda>i. sender (messages ?s' i) = u) (assigned_ids ?s')" for u
  proof -
    have "userMessages s u = filter (\<lambda>i. sender (messages s i) = u) (assigned_ids s)"
      using inv by (simp add: registry_inv_def)
    moreover have "userMessages ?s' u =
        (if u = msg_sender e then userMessages s u @ [?n] else userMessages s u)"
      by (simp add: stored_def)
    ultimately show ?thesis by (auto simp: ids old new)
  qed
  have ev: "map event_id (events ?s') = assigned_ids ?s'"
  proof -
    have "map event_id (events s) = assigned_ids s" using inv by (simp add: registry_inv_def)
    then show ?thesis by (simp add: ids) (simp add: stored_def)
  qed
  show ?thesis unfolding registry_inv_def using ex um ev by blast
qed

lemma registry_inv_transact: "registry_inv s \<Longrightarrow> registry_inv (snd (transact e c s))"
  using transact_step [of e c s] by (auto intro: registry_inv_stored)

lemma registry_inv_run: "registry_inv s \<Longrightarrow> registry_inv (run txs s)"
  by (induction txs arbitrary: s) (simp_all add: registry_inv_transact)

lemma registry_inv_reachable: "registry_inv (run txs init_world)"
  by (rule registry_inv_run) (rule registry_inv_init)

lemma total_transact:
  "unat (totalMessages (snd (transact e c s))) =
     unat (totalMessages s) + (if submits e c s then 1 else 0)"
  using transact_step [of e c s] by (auto simp: stored_def unat_succ)

lemma total_run:
  "unat (totalMessages (run txs s)) = unat (totalMessages s) + submissions txs s"
  by (induction txs arbitrary: s) (simp_all add: total_transact)

lemma userMessages_transact:
  "length (userMessages (snd (transact e c s)) u) =
     length (userMessages s u) + (if submits e c s \<and> msg_sender e = u then 1 else 0)"
  using transact_step [of e c s] by (auto simp: stored_def)

lemma userMessages_run:
  "length (userMessages (run txs s) u) = length (userMessages s u) + submissions_by u txs s"
  by (induction txs arbitrary: s) (simp_all add: userMessages_transact)

lemma stored_count:
  assumes "registry_inv s"
  shows "card {i. exists (messages s i)} = unat (totalMessages s)"
proof -
  have "{i. exists (messages s i)} = {i. i < totalMessages s}"
    using assms by (simp add: registry_inv_def)
  then show ?thesis by (simp only: word_below_card)
qed

lemma userMessages_length_le:
  assumes "registry_inv s"
  shows "length (userMessages s u) \<le> unat (totalMessages s)"
proof -
  have "userMessages s u = filter (\<lambda>i. sender (messages s i) = u) (assigned_ids s)"
    using assms by (simp add: registry_inv_def)
  then have "length (userMessages s u) \<le> length (assigned_ids s)" by simp
  then show ?thesis by (simp add: assigned_ids_def)
qed

lemma unat_of_nat_le:
  assumes "k \<le> unat (n::'a::len word)"
  shows "unat (of_nat k :: 'a word) = k"
proof -
  have "unat n < 2 ^ LENGTH('a)" by (rule unsigned_less)
  with assms have "k < 2 ^ LENGTH('a)" by (rule le_less_trans)
  then show ?thesis by (simp add: unat_of_nat)
qed

lemma getUserMessageCount_exact:
  assumes "registry_inv s"
  shows "unat (getUserMessageCount u s) = length (userMessages s u)"
  unfolding getUserMessageCount_def
  by (rule unat_of_nat_le) (rule userMessages_length_le [OF assms])

lemma messages_frame:
  assumes "registry_inv s" and "exists (messages s i)"
  shows "messages (snd (transact e c s)) i = messages s i"
proof -
  from assms have "i < totalMessages s" by (simp add: registry_inv_def)
  then show ?thesis using transact_step [of e c s] by (auto simp: messages_stored_below)
qed

section \<open>Order of ids, later calls and failing calls\<close>

lemmas example_simps =
  example_calls_def example_env_def init_world_def zero_Message_def commit_def
  submitMessage_def submitMessageMock_def Let_def

lemma assigned_ids_increasing: "sorted_wrt (<) (assigned_ids s)"
proof -
  have "sorted_wrt (<) [0..<unat (totalMessages s)]" by simp
  then have "sorted_wrt (\<lambda>x y. (of_nat x :: uint256) < of_nat y) [0..<unat (totalMessages s)]"
  proof (rule sorted_wrt_mono_rel [rotated])
    fix x y assume "x \<in> set [0..<unat (totalMessages s)]" "y \<in> set [0..<unat (totalMessages s)]"
      and "x < y"
    then have x: "x < unat (totalMessages s)" and y: "y < unat (totalMessages s)" by simp_all
    have "unat (of_nat x :: uint256) = x" using x by (rule unat_of_nat_below)
    moreover have "unat (of_nat y :: uint256) = y" using y by (rule unat_of_nat_below)
    ultimately show "(of_nat x :: uint256) < of_nat y"
      using \<open>x < y\<close> by (simp only: word_less_nat_alt)
  qed
  then show ?thesis by (simp add: assigned_ids_def sorted_wrt_map)
qed

lemma messages_frame_run:
  "registry_inv s \<Longrightarrow> exists (messages s i) \<Longrightarrow> messages (run later s) i = messages s i"
proof (induction later arbitrary: s)
  case Nil
  then show ?case by simp
next
  case (Cons ec later)
  let ?s' = "snd (transact (fst ec) (snd ec) s)"
  have m: "messages ?s' i = messages s i" using Cons.prems by (rule messages_frame)
  have "registry_inv ?s'" using Cons.prems(1) by (rule registry_inv_transact)
  moreover have "exists (messages ?s' i)" using m Cons.prems(2) by simp
  ultimately have "messages (run later ?s') i = messages ?s' i" by (rule Cons.IH)
  with m show ?case by simp
qed

lemma transact_failure: "fst (transact e c s) = Inl err \<Longrightarrow> snd (transact e c s) = s"
  using transact_step [of e c s] by (auto simp: submits_def is_submission_def split: call.splits)

section \<open>The claims\<close>

text \<open>
  \<^bold>\<open>C1\<close>. In every state and for every caller, \<^verbatim>\<open>getEncryptedContent\<close> and
  \<^verbatim>\<open>getEncryptedTimestamp\<close> check in this order: when the message at the id does not
  exist they fail with \<open>MessageNotFound\<close>; otherwise, when the caller is not the stored
  sender, they fail with \<open>NotAuthorized\<close>, whatever else the caller owns; otherwise they
  return the stored handle.
\<close>

theorem gated_reads_ordered:
  "(\<not> exists (messages s i) \<longrightarrow>
      getEncryptedContent e i s = Inl MessageNotFound \<and>
      getEncryptedTimestamp e i s = Inl MessageNotFound) \<and>
   (exists (messages s i) \<and> sender (messages s i) \<noteq> msg_sender e \<longrightarrow>
      getEncryptedContent e i s = Inl NotAuthorized \<and>
      getEncryptedTimestamp e i s = Inl NotAuthorized) \<and>
   (exists (messages s i) \<and> sender (messages s i) = msg_sender e \<longrightarrow>
      getEncryptedContent e i s = Inr (encryptedContent (messages s i)) \<and>
      getEncryptedTimestamp e i s = Inr (encryptedTimestamp (messages s i)))"
  by (simp add: getEncryptedContent_def getEncryptedTimestamp_def MessageNotFound_def
      NotAuthorized_def)

theorem gated_reads_ordered_witness:
  "getEncryptedContent (example_env 2 2000) 3 (run example_calls init_world) = Inl MessageNotFound \<and>
   getEncryptedTimestamp (example_env 2 2000) 0 (run example_calls init_world) = Inl NotAuthorized \<and>
   getEncryptedContent (example_env 1 2000) 0 (run example_calls init_world) = Inr 5 \<and>
   getEncryptedTimestamp (example_env 2 2000) 1 (run example_calls init_world) = Inr 8"
proof -
  let ?s = "run example_calls init_world"
  have a: "\<not> exists (messages ?s 3)" by (simp add: example_simps)
  have b: "exists (messages ?s 0) \<and> sender (messages ?s 0) \<noteq> msg_sender (example_env 2 2000)"
    by (simp add: example_simps)
  have c: "exists (messages ?s 0) \<and> sender (messages ?s 0) = msg_sender (example_env 1 2000)"
    by (simp add: example_simps)
  have d: "exists (messages ?s 1) \<and> sender (messages ?s 1) = msg_sender (example_env 2 2000)"
    by (simp add: example_simps)
  have c5: "encryptedContent (messages ?s 0) = 5" by (simp add: example_simps)
  have d8: "encryptedTimestamp (messages ?s 1) = 8" by (simp add: example_simps)
  show ?thesis
    using a b c d c5 d8
      gated_reads_ordered [of ?s 3 "example_env 2 2000"]
      gated_reads_ordered [of ?s 0 "example_env 2 2000"]
      gated_reads_ordered [of ?s 0 "example_env 1 2000"]
      gated_reads_ordered [of ?s 1 "example_env 2 2000"]
    by simp
qed

text \<open>
  \<^bold>\<open>C2\<close>. A successful \<^verbatim>\<open>submitMessage\<close> allocates the id equal to the counter before
  the call, stores at that id a message with the caller as sender, the block time as
  creation time and \<open>exists\<close> set, with the two imported handles; appends the id to the
  caller's array; increments the counter by one, without wrapping; and emits
  \<^verbatim>\<open>MessageSubmitted\<close> with the id, the sender and the block time.
\<close>

theorem submit_effects:
  assumes "fst (submitMessage e c t p s) = Inr ()"
  shows "\<exists>content timestamp.
     fromExternal64 e c p = Some content \<and> fromExternal32 e t p = Some timestamp \<and>
     messages (snd (submitMessage e c t p s)) = (messages s)(totalMessages s :=
        \<lparr>sender = msg_sender e, encryptedContent = content, encryptedTimestamp = timestamp,
         createdAt = block_timestamp e, exists = True\<rparr>) \<and>
     userMessages (snd (submitMessage e c t p s)) = (userMessages s)(msg_sender e :=
        userMessages s (msg_sender e) @ [totalMessages s]) \<and>
     totalMessages (snd (submitMessage e c t p s)) = totalMessages s + 1 \<and>
     unat (totalMessages (snd (submitMessage e c t p s))) = unat (totalMessages s) + 1 \<and>
     events (snd (submitMessage e c t p s)) = events s @
        [MessageSubmitted (totalMessages s) (msg_sender e) (block_timestamp e)] \<and>
     transact e (SubmitMessage c t p) s = (Inr RUnit, snd (submitMessage e c t p s))"
  using assms
  by (auto simp: submitMessage_result stored_def commit_def unat_succ
      split: option.splits if_splits)

theorem submit_effects_witness:
  "fst (submitMessage (example_env 1 1000) 5 6 [1] init_world) = Inr () \<and>
   totalMessages (snd (submitMessage (example_env 1 1000) 5 6 [1] init_world)) = 1 \<and>
   userMessages (snd (submitMessage (example_env 1 1000) 5 6 [1] init_world)) 1 = [0] \<and>
   events (snd (submitMessage (example_env 1 1000) 5 6 [1] init_world)) =
     [MessageSubmitted 0 1 1000]"
proof -
  have h: "fst (submitMessage (example_env 1 1000) 5 6 [1] init_world) = Inr ()"
    by (simp add: example_simps)
  show ?thesis
    using h submit_effects [OF h] by (auto simp: example_env_def init_world_def)
qed

text \<open>
  \<^bold>\<open>C3\<close>. After any sequence of calls from the initial state, of which \<open>N\<close> are
  successful submissions (failed calls and reads may be interleaved and count for
  nothing), the counter is \<open>N\<close>, the ids assigned, read off the event log in call order,
  are exactly \<open>0, \<dots>, N - 1\<close>, strictly increasing, and the number of stored messages
  equals the counter. Every intermediate state is itself the end of a shorter sequence,
  so the same holds there.
\<close>

theorem ids_sequential:
  "unat (totalMessages (run txs init_world)) = submissions txs init_world \<and>
   map event_id (events (run txs init_world)) = map of_nat [0..<submissions txs init_world] \<and>
   sorted_wrt (<) (map event_id (events (run txs init_world))) \<and>
   card {i. exists (messages (run txs init_world) i)} = unat (totalMessages (run txs init_world))"
proof -
  let ?s = "run txs init_world"
  have inv: "registry_inv ?s" by (rule registry_inv_reachable)
  have n: "unat (totalMessages ?s) = submissions txs init_world"
    using total_run [of txs init_world] by (simp add: init_world_def)
  have ev: "map event_id (events ?s) = assigned_ids ?s"
    using inv by (simp add: registry_inv_def)
  have "map event_id (events ?s) = map of_nat [0..<submissions txs init_world]"
    unfolding ev assigned_ids_def n ..
  moreover have "sorted_wrt (<) (map event_id (events ?s))"
    unfolding ev by (rule assigned_ids_increasing)
  moreover have "card {i. exists (messages ?s i)} = unat (totalMessages ?s)"
    using inv by (rule stored_count)
  ultimately show ?thesis using n by blast
qed

theorem ids_sequential_witness:
  "submissions example_calls init_world = 3 \<and>
   totalMessages (run example_calls init_world) = 3 \<and>
   map event_id (events (run example_calls init_world)) = [0, 1, 2]"
proof -
  have n: "submissions example_calls init_world = 3"
    by (simp add: example_simps submits_def is_submission_def)
  have t: "totalMessages (run example_calls init_world) = 3" by (simp add: example_simps)
  have "map event_id (events (run example_calls init_world)) = map of_nat [0..<3]"
    using ids_sequential [of example_calls] by (simp only: n)
  also have "\<dots> = [0, 1, 2]" by (simp add: upt_rec)
  finally show ?thesis using n t by blast
qed

text \<open>
  \<^bold>\<open>C4\<close>. In every reachable state and for every identity \<open>u\<close>, the array of \<open>u\<close> holds
  exactly the ids whose stored sender is \<open>u\<close>, in increasing id order, which is the order
  of submission; \<^verbatim>\<open>getUserMessages\<close> returns the caller's array as it is;
  \<^verbatim>\<open>getUserMessageCount\<close> returns its length, which is the number of successful
  submissions by \<open>u\<close>.
\<close>

theorem owner_index_exact:
  "userMessages (run txs init_world) u =
     filter (\<lambda>i. sender (messages (run txs init_world) i) = u)
       (assigned_ids (run txs init_world)) \<and>
   set (userMessages (run txs init_world) u) =
     {i. exists (messages (run txs init_world) i) \<and>
         sender (messages (run txs init_world) i) = u} \<and>
   getUserMessages e (run txs init_world) = userMessages (run txs init_world) (msg_sender e) \<and>
   unat (getUserMessageCount u (run txs init_world)) =
     length (userMessages (run txs init_world) u) \<and>
   length (userMessages (run txs init_world) u) = submissions_by u txs init_world"
proof -
  let ?s = "run txs init_world"
  have inv: "registry_inv ?s" by (rule registry_inv_reachable)
  have um: "userMessages ?s u = filter (\<lambda>i. sender (messages ?s i) = u) (assigned_ids ?s)"
    using inv by (simp add: registry_inv_def)
  have ex: "exists (messages ?s i) = (i < totalMessages ?s)" for i
    using inv by (simp add: registry_inv_def)
  have "set (userMessages ?s u) = {i. exists (messages ?s i) \<and> sender (messages ?s i) = u}"
    unfolding um by (auto simp: assigned_ids_set ex)
  moreover have "getUserMessages e ?s = userMessages ?s (msg_sender e)"
    by (simp add: getUserMessages_def)
  moreover have "unat (getUserMessageCount u ?s) = length (userMessages ?s u)"
    using inv by (rule getUserMessageCount_exact)
  moreover have "length (userMessages ?s u) = submissions_by u txs init_world"
    using userMessages_run [of txs init_world u] by (simp add: init_world_def)
  ultimately show ?thesis using um by blast
qed

theorem owner_index_exact_witness:
  "submissions_by 2 example_calls init_world = 2 \<and>
   length (userMessages (run example_calls init_world) 2) = 2 \<and>
   unat (getUserMessageCount 2 (run example_calls init_world)) = 2 \<and>
   getUserMessages (example_env 2 2000) (run example_calls init_world) = [1, 2]"
proof -
  have n: "submissions_by 2 example_calls init_world = 2"
    by (simp add: example_simps submits_def is_submission_def)
  have u: "userMessages (run example_calls init_world) 2 = [1, 2]" by (simp add: example_simps)
  have m: "msg_sender (example_env 2 2000) = 2" by (simp add: example_env_def)
  note th = owner_index_exact [of example_calls 2 "example_env 2 2000"]
  from th have "length (userMessages (run example_calls init_world) 2)
      = submissions_by 2 example_calls init_world"
    by blast
  then have l: "length (userMessages (run example_calls init_world) 2) = 2"
    by (simp only: n)
  from th have "unat (getUserMessageCount 2 (run example_calls init_world))
      = length (userMessages (run example_calls init_world) 2)"
    by blast
  then have c: "unat (getUserMessageCount 2 (run example_calls init_world)) = 2"
    by (simp only: l)
  from th have "getUserMessages (example_env 2 2000) (run example_calls init_world)
      = userMessages (run example_calls init_world) (msg_sender (example_env 2 2000))"
    by blast
  then have "getUserMessages (example_env 2 2000) (run example_calls init_world) = [1, 2]"
    by (simp only: m u)
  with l c show ?thesis using n by blast
qed

text \<open>
  \<^bold>\<open>C5\<close>. In every reachable state, a message that exists is left as it is, in all five
  fields, by every call of the interface and by every sequence of further calls.
\<close>

theorem messages_immutable:
  "exists (messages (run txs init_world) i) \<longrightarrow>
     messages (snd (transact e c (run txs init_world))) i = messages (run txs init_world) i \<and>
     messages (run later (run txs init_world)) i = messages (run txs init_world) i"
  using messages_frame [OF registry_inv_reachable] messages_frame_run [OF registry_inv_reachable]
  by blast

theorem messages_immutable_witness:
  "exists (messages (run (take 1 example_calls) init_world) 0) \<and>
   messages (snd (transact (example_env 2 1001) (SubmitMessageMock 7 8)
       (run (take 1 example_calls) init_world))) 0
     = messages (run (take 1 example_calls) init_world) 0 \<and>
   messages (run (drop 1 example_calls) (run (take 1 example_calls) init_world)) 0
     = \<lparr>sender = 1, encryptedContent = 5, encryptedTimestamp = 6, createdAt = 1000,
        exists = True\<rparr>"
proof -
  have h: "exists (messages (run (take 1 example_calls) init_world) 0)"
    by (simp add: example_simps)
  have m: "messages (run (take 1 example_calls) init_world) 0 =
     \<lparr>sender = 1, encryptedContent = 5, encryptedTimestamp = 6, createdAt = 1000,
      exists = True\<rparr>"
    by (simp add: example_simps)
  show ?thesis
    using h m messages_immutable [of "take 1 example_calls" 0 "example_env 2 1001"
        "SubmitMessageMock 7 8" "drop 1 example_calls"]
    by simp
qed

text \<open>
  \<^bold>\<open>C6\<close>. A successful \<^verbatim>\<open>submitMessage\<close> requests exactly four grants and no other: on
  the stored content handle and on the stored timestamp handle, each to the contract
  itself and to the caller.
\<close>

theorem submit_grants:
  assumes "fst (submitMessage e c t p s) = Inr ()"
  shows "allowed (snd (submitMessage e c t p s)) = allowed s @
     [(encryptedContent (messages (snd (submitMessage e c t p s)) (totalMessages s)),
         this_address e),
      (encryptedContent (messages (snd (submitMessage e c t p s)) (totalMessages s)),
         msg_sender e),
      (encryptedTimestamp (messages (snd (submitMessage e c t p s)) (totalMessages s)),
         this_address e),
      (encryptedTimestamp (messages (snd (submitMessage e c t p s)) (totalMessages s)),
         msg_sender e)] \<and>
     snd ` set (drop (length (allowed s)) (allowed (snd (submitMessage e c t p s))))
       = {this_address e, msg_sender e}"
  using assms
  by (auto simp: submitMessage_result stored_def split: option.splits if_splits)

theorem submit_grants_witness:
  "fst (submitMessage (example_env 1 1000) 5 6 [1] init_world) = Inr () \<and>
   allowed (snd (submitMessage (example_env 1 1000) 5 6 [1] init_world)) =
     [(5, 4096), (5, 1), (6, 4096), (6, 1)]"
proof -
  have h: "fst (submitMessage (example_env 1 1000) 5 6 [1] init_world) = Inr ()"
    by (simp add: example_simps)
  have m: "messages (snd (submitMessage (example_env 1 1000) 5 6 [1] init_world)) 0 =
      \<lparr>sender = 1, encryptedContent = 5, encryptedTimestamp = 6, createdAt = 1000, exists = True\<rparr>"
    by (simp add: example_simps)
  show ?thesis
    using h m submit_grants [OF h] by (simp add: example_env_def init_world_def)
qed

text \<open>
  \<^bold>\<open>C7\<close>. \<^verbatim>\<open>isMessageOwner\<close> is true exactly when the message exists and its sender is
  the caller; the call never fails, and in a reachable state it returns false for an id
  that was never assigned.
\<close>

theorem isMessageOwner_iff:
  "isMessageOwner e i s = (exists (messages s i) \<and> sender (messages s i) = msg_sender e) \<and>
   transact e (IsMessageOwner i) s = (Inr (RBool (isMessageOwner e i s)), s) \<and>
   (\<not> i < totalMessages (run txs init_world) \<longrightarrow>
      transact e (IsMessageOwner i) (run txs init_world)
        = (Inr (RBool False), run txs init_world))"
proof -
  have "exists (messages (run txs init_world) i) = (i < totalMessages (run txs init_world))"
    using registry_inv_reachable [of txs] by (simp add: registry_inv_def)
  then show ?thesis by (simp add: isMessageOwner_def)
qed

theorem isMessageOwner_iff_witness:
  "\<not> (3::uint256) < totalMessages (run example_calls init_world) \<and>
   transact (example_env 0 2000) (IsMessageOwner 3) (run example_calls init_world)
     = (Inr (RBool False), run example_calls init_world) \<and>
   isMessageOwner (example_env 2 2000) 1 (run example_calls init_world) \<and>
   \<not> isMessageOwner (example_env 1 2000) 1 (run example_calls init_world)"
proof -
  let ?s = "run example_calls init_world"
  have h: "\<not> (3::uint256) < totalMessages ?s" by (simp add: example_simps)
  have a: "exists (messages ?s 1) \<and> sender (messages ?s 1) = msg_sender (example_env 2 2000)"
    by (simp add: example_simps)
  have b: "\<not> (exists (messages ?s 1) \<and> sender (messages ?s 1) = msg_sender (example_env 1 2000))"
    by (simp add: example_simps)
  have "transact (example_env 0 2000) (IsMessageOwner 3) ?s = (Inr (RBool False), ?s)"
    using h isMessageOwner_iff [of "example_env 0 2000" 3 ?s example_calls] by blast
  moreover have "isMessageOwner (example_env 2 2000) 1 ?s"
    using a isMessageOwner_iff [of "example_env 2 2000" 1 ?s example_calls] by blast
  moreover have "\<not> isMessageOwner (example_env 1 2000) 1 ?s"
    using b isMessageOwner_iff [of "example_env 1 2000" 1 ?s example_calls] by blast
  ultimately show ?thesis using h by blast
qed

text \<open>
  \<^bold>\<open>C8\<close>. When the library rejects either import, \<^verbatim>\<open>submitMessage\<close> fails with
  \<open>ProofInvalid\<close> (and only then) before it has written anything; whenever it fails, the
  state it had reached is the state it started from; and every failing call of the
  interface, the gated reads with \<open>MessageNotFound\<close> and \<open>NotAuthorized\<close> among them,
  leaves the state unchanged.
\<close>

theorem failures_leave_state:
  "(fromExternal64 e c p = None \<or> fromExternal32 e t p = None \<longrightarrow>
      submitMessage e c t p s = (Inl ProofInvalid, s) \<and>
      transact e (SubmitMessage c t p) s = (Inl ProofInvalid, s)) \<and>
   (fst (submitMessage e c t p s) = Inl ProofInvalid \<longrightarrow>
      fromExternal64 e c p = None \<or> fromExternal32 e t p = None) \<and>
   (fst (submitMessage e c t p s) = Inl err \<longrightarrow> snd (submitMessage e c t p s) = s) \<and>
   (fst (transact e cl s) = Inl err \<longrightarrow> snd (transact e cl s) = s) \<and>
   snd (transact e (GetEncryptedContent i) s) = s \<and>
   snd (transact e (GetEncryptedTimestamp i) s) = s"
proof -
  have "fst (transact e cl s) = Inl err \<longrightarrow> snd (transact e cl s) = s"
    by (simp add: transact_failure)
  moreover have "fromExternal64 e c p = None \<or> fromExternal32 e t p = None \<longrightarrow>
      submitMessage e c t p s = (Inl ProofInvalid, s) \<and>
      transact e (SubmitMessage c t p) s = (Inl ProofInvalid, s)"
    by (auto simp: submitMessage_result commit_def split: option.splits)
  moreover have "fst (submitMessage e c t p s) = Inl ProofInvalid \<longrightarrow>
      fromExternal64 e c p = None \<or> fromExternal32 e t p = None"
    by (auto simp: submitMessage_result split: option.splits if_splits)
  moreover have "fst (submitMessage e c t p s) = Inl err \<longrightarrow> snd (submitMessage e c t p s) = s"
    by (auto simp: submitMessage_result split: option.splits if_splits)
  moreover have "snd (transact e (GetEncryptedContent i) s) = s"
    and "snd (transact e (GetEncryptedTimestamp i) s) = s"
    by simp_all
  ultimately show ?thesis by blast
qed

theorem failures_leave_state_witness:
  "fromExternal64 (example_env 2 1003) 11 [] = None \<and>
   transact (example_env 2 1003) (SubmitMessage 11 12 []) (run (take 3 example_calls) init_world)
     = (Inl ProofInvalid, run (take 3 example_calls) init_world) \<and>
   fst (transact (example_env 2 2000) (GetEncryptedContent 0)
          (run (take 3 example_calls) init_world)) = Inl NotAuthorized \<and>
   snd (transact (example_env 2 2000) (GetEncryptedContent 0)
          (run (take 3 example_calls) init_world)) = run (take 3 example_calls) init_world \<and>
   fst (transact (example_env 2 2000) (GetEncryptedTimestamp 3)
          (run (take 3 example_calls) init_world)) = Inl MessageNotFound \<and>
   snd (transact (example_env 2 2000) (GetEncryptedTimestamp 3)
          (run (take 3 example_calls) init_world)) = run (take 3 example_calls) init_world"
proof -
  let ?s = "run (take 3 example_calls) init_world"
  have h: "fromExternal64 (example_env 2 1003) 11 [] = None" by (simp add: example_env_def)
  have a: "fst (transact (example_env 2 2000) (GetEncryptedContent 0) ?s) = Inl NotAuthorized"
    by (simp add: example_simps getEncryptedContent_def NotAuthorized_def)
  have b: "fst (transact (example_env 2 2000) (GetEncryptedTimestamp 3) ?s) = Inl MessageNotFound"
    by (simp add: example_simps getEncryptedTimestamp_def MessageNotFound_def)
  have "transact (example_env 2 1003) (SubmitMessage 11 12 []) ?s = (Inl ProofInvalid, ?s)"
    using h failures_leave_state [of "example_env 2 1003" 11 "[]" 12 ?s] by blast
  moreover have "snd (transact (example_env 2 2000) (GetEncryptedContent 0) ?s) = ?s"
    using a failures_leave_state [of "example_env 2 2000" _ _ _ ?s NotAuthorized
        "GetEncryptedContent 0"] by blast
  moreover have "snd (transact (example_env 2 2000) (GetEncryptedTimestamp 3) ?s) = ?s"
    using b failures_leave_state [of "example_env 2 2000" _ _ _ ?s MessageNotFound
        "GetEncryptedTimestamp 3"] by blast
  ultimately show ?thesis using h a b by blast
qed



text \<open>
  \<^bold>\<open>C10\<close>. \<^verbatim>\<open>submitMessageMock\<close> does what \<^verbatim>\<open>submitMessage\<close> does when the library
  accepts every proof and imports the wrapped plaintexts: the same id, stored message,
  array entry, grants and event. In particular the two agree whenever the imports of a
  \<^verbatim>\<open>submitMessage\<close> call return those handles, and every property of states that all
  \<^verbatim>\<open>submitMessage\<close> calls preserve is preserved by \<^verbatim>\<open>submitMessageMock\<close>.
\<close>

theorem mock_is_submit:
  "submitMessageMock e x y s =
     submitMessage
       (e\<lparr>fromExternal64 := \<lambda>_ _. Some (asEuint64 e x),
          fromExternal32 := \<lambda>_ _. Some (asEuint32 e y)\<rparr>) c t p s \<and>
   (fromExternal64 e c p = Some (asEuint64 e x) \<and> fromExternal32 e t p = Some (asEuint32 e y)
      \<longrightarrow> submitMessageMock e x y s = submitMessage e c t p s \<and>
          transact e (SubmitMessageMock x y) s = transact e (SubmitMessage c t p) s) \<and>
   ((\<forall>e' c' t' p' s'. I s' \<longrightarrow> I (snd (transact e' (SubmitMessage c' t' p') s')))
      \<longrightarrow> I s \<longrightarrow> I (snd (transact e (SubmitMessageMock x y) s)))"
proof -
  let ?e = "e\<lparr>fromExternal64 := \<lambda>_ _. Some (asEuint64 e x),
              fromExternal32 := \<lambda>_ _. Some (asEuint32 e y)\<rparr>"
  have eq: "submitMessageMock e x y s = submitMessage ?e c t p s"
    by (simp add: submitMessage_result submitMessageMock_result stored_def)
  then have tr: "transact e (SubmitMessageMock x y) s = transact ?e (SubmitMessage c t p) s"
    by simp
  have "fromExternal64 e c p = Some (asEuint64 e x) \<and> fromExternal32 e t p = Some (asEuint32 e y)
      \<longrightarrow> submitMessageMock e x y s = submitMessage e c t p s \<and>
          transact e (SubmitMessageMock x y) s = transact e (SubmitMessage c t p) s"
    by (simp add: submitMessage_result submitMessageMock_result)
  moreover have "(\<forall>e' c' t' p' s'. I s' \<longrightarrow> I (snd (transact e' (SubmitMessage c' t' p') s')))
      \<longrightarrow> I s \<longrightarrow> I (snd (transact e (SubmitMessageMock x y) s))"
    unfolding tr by blast
  ultimately show ?thesis using eq by blast
qed

theorem mock_is_submit_witness:
  "fromExternal64 (example_env 2 1001) 7 [1] = Some (asEuint64 (example_env 2 1001) 7) \<and>
   fromExternal32 (example_env 2 1001) 8 [1] = Some (asEuint32 (example_env 2 1001) 8) \<and>
   submitMessageMock (example_env 2 1001) 7 8 init_world
     = submitMessage (example_env 2 1001) 7 8 [1] init_world \<and>
   length (allowed (snd (transact (example_env 2 1001) (SubmitMessageMock 7 8) init_world)))
     = 4 * length (events (snd (transact (example_env 2 1001) (SubmitMessageMock 7 8) init_world)))"
proof -
  let ?I = "\<lambda>s::world. length (allowed s) = 4 * length (events s)"
  have h: "fromExternal64 (example_env 2 1001) 7 [1] = Some (asEuint64 (example_env 2 1001) 7) \<and>
     fromExternal32 (example_env 2 1001) 8 [1] = Some (asEuint32 (example_env 2 1001) 8)"
    by (simp add: example_env_def)
  have pres: "\<forall>e' c' t' p' s'. ?I s' \<longrightarrow> ?I (snd (transact e' (SubmitMessage c' t' p') s'))"
  proof (intro allI impI)
    fix e' c' t' p' s' assume "?I s'"
    then show "?I (snd (transact e' (SubmitMessage c' t' p') s'))"
      using transact_step [of e' "SubmitMessage c' t' p'" s'] by (auto simp: stored_def)
  qed
  have init: "?I init_world" by (simp add: init_world_def)
  have "submitMessageMock (example_env 2 1001) 7 8 init_world
     = submitMessage (example_env 2 1001) 7 8 [1] init_world"
    using h mock_is_submit [of "example_env 2 1001" 7 8 init_world 7 8 "[1]" ?I] by blast
  moreover have "?I (snd (transact (example_env 2 1001) (SubmitMessageMock 7 8) init_world))"
    using pres init mock_is_submit [of "example_env 2 1001" 7 8 init_world 7 8 "[1]" ?I] by blast
  ultimately show ?thesis using h by blast
qed

end
